theory Spec2Isabelle
  imports Main "HOL-Library.Word"
begin

section \<open>Strings of the source language\<close>

text \<open>
  A TypeScript string is a sequence of UTF-16 code units; \<open>length\<close>, \<open>substring\<close>,
  \<open>split\<close> and regular expressions without the \<open>u\<close> flag all work on code units.
  Every character the analysed code names (CJK ideographs, full-width punctuation,
  ASCII) is one code unit.
\<close>

type_synonym jschar = "16 word"
type_synonym jsstring = "jschar list"

text \<open>
  \<open>text.match(new RegExp(word, 'g'))\<close> for a literal \<open>word\<close>: the matches are found
  left to right, each search resuming after the end of the previous match. The empty
  pattern matches once at every position, the end included.
\<close>

function match_count :: "'a list \<Rightarrow> 'a list \<Rightarrow> nat" where
  "match_count w t =
     (if w = [] then Suc (length t)
      else if t = [] then 0
      else if take (length w) t = w then Suc (match_count w (drop (length w) t))
      else match_count w (tl t))"
  by pat_completeness auto
termination
  by (relation "measure (\<lambda>(w, t). length t)") auto

declare match_count.simps [simp del]

text \<open>
  The count that the specification speaks of: the number of positions at which
  \<open>w\<close> occurs in \<open>t\<close>, overlapping or not.
\<close>

fun occurrences :: "'a list \<Rightarrow> 'a list \<Rightarrow> nat" where
  "occurrences w [] = 0"
| "occurrences w (c # cs) = (if take (length w) (c # cs) = w then 1 else 0) + occurrences w cs"

text \<open>\<open>s.includes(w)\<close>\<close>

fun string_includes :: "'a list \<Rightarrow> 'a list \<Rightarrow> bool" where
  "string_includes [] w = (w = [])"
| "string_includes (c # cs) w = (take (length w) (c # cs) = w \<or> string_includes cs w)"

text \<open>
  \<open>s.split(sep)[0]\<close> for a non-empty separator string: the text before the first
  occurrence of \<open>sep\<close>, the whole of \<open>s\<close> when there is none. The array that
  \<open>split\<close> returns is never empty, so the index is always in range.
\<close>

fun split_first :: "'a list \<Rightarrow> 'a list \<Rightarrow> 'a list" where
  "split_first sep [] = []"
| "split_first sep (c # cs) =
     (if take (length sep) (c # cs) = sep then [] else c # split_first sep cs)"

text \<open>
  The characters matched by \<open>\s\<close> and removed by \<open>trim\<close>: white space and line
  terminators of ECMAScript.
\<close>

definition isWhiteSpace :: "jschar \<Rightarrow> bool" where
  "isWhiteSpace c \<longleftrightarrow>
     c \<in> set [0x09, 0x0A, 0x0B, 0x0C, 0x0D, 0x20, 0xA0, 0x1680, 0x2028, 0x2029,
               0x202F, 0x205F, 0x3000, 0xFEFF] \<or> (0x2000 \<le> c \<and> c \<le> 0x200A)"

text \<open>\<open>\d\<close>: the ASCII digits.\<close>

definition isDigit :: "jschar \<Rightarrow> bool" where
  "isDigit c \<longleftrightarrow> 0x30 \<le> c \<and> c \<le> 0x39"

definition trim :: "jsstring \<Rightarrow> jsstring" where
  "trim s = rev (dropWhile isWhiteSpace (rev (dropWhile isWhiteSpace s)))"

text \<open>
  \<open>s.split(/\s+/)\<close>: the pieces between maximal runs of white space. A run at the
  start or at the end of \<open>s\<close> leaves an empty piece there, and the empty string
  gives one empty piece. \<open>cur\<close> is the piece being read.
\<close>

function split_whitespace :: "jsstring \<Rightarrow> jsstring \<Rightarrow> jsstring list" where
  "split_whitespace cur [] = [cur]"
| "split_whitespace cur (c # cs) =
     (if isWhiteSpace c then cur # split_whitespace [] (dropWhile isWhiteSpace cs)
      else split_whitespace (cur @ [c]) cs)"
  by pat_completeness auto
termination
  by (relation "measure (\<lambda>(cur, s). length s)") (auto simp: less_Suc_eq_le length_dropWhile_le)

text \<open>
  \<open>s.split(/[...]/)\<close> for a class \<open>P\<close> of single characters: every character of
  the class ends a piece, so two in a row leave an empty piece between them.
\<close>

fun split_chars :: "('a \<Rightarrow> bool) \<Rightarrow> 'a list \<Rightarrow> 'a list \<Rightarrow> 'a list list" where
  "split_chars P cur [] = [cur]"
| "split_chars P cur (c # cs) =
     (if P c then cur # split_chars P [] cs else split_chars P (cur @ [c]) cs)"

text \<open>
  The numbers that \<open>parseInt\<close> returns are doubles. An integer of magnitude below
  \<open>2 ^ 53\<close> is a double exactly: \<open>Integer n\<close>. A larger one is rounded to 53
  bits, to an extent that the engine may choose for long decimal strings, or to
  infinity: \<open>Beyond neg\<close> is such a double, of magnitude at least \<open>2 ^ 53\<close> and
  negative when \<open>neg\<close> holds; its digits are not modelled. Rounding is monotone, so
  every comparison of a \<open>Beyond\<close> value with a small integer is decided.
\<close>

datatype number = NaN | Integer int | Beyond bool

text \<open>
  \<open>parseInt(s)\<close> with no radix: leading white space is skipped, then an optional
  sign, then a \<open>0x\<close> or \<open>0X\<close> prefix selects radix 16; the longest prefix of
  digits of the radix is the value, and the result is \<open>NaN\<close> when there is no digit.
\<close>

definition digit_value :: "jschar \<Rightarrow> int option" where
  "digit_value c =
     (if 0x30 \<le> c \<and> c \<le> 0x39 then Some (uint c - 0x30)
      else if 0x61 \<le> c \<and> c \<le> 0x7A then Some (uint c - 0x61 + 10)
      else if 0x41 \<le> c \<and> c \<le> 0x5A then Some (uint c - 0x41 + 10)
      else None)"

definition isRadixDigit :: "int \<Rightarrow> jschar \<Rightarrow> bool" where
  "isRadixDigit radix c = (case digit_value c of None \<Rightarrow> False | Some v \<Rightarrow> v < radix)"

definition radix_value :: "int \<Rightarrow> jsstring \<Rightarrow> int" where
  "radix_value radix ds = foldl (\<lambda>n c. radix * n + (case digit_value c of None \<Rightarrow> 0 | Some v \<Rightarrow> v)) 0 ds"

definition parseInt :: "jsstring \<Rightarrow> number" where
  "parseInt s =
     (let t = dropWhile isWhiteSpace s;
          sign = (if take 1 t = [0x2D] then - 1 else 1);
          u = (if take 1 t = [0x2D] \<or> take 1 t = [0x2B] then drop 1 t else t);
          hex = (take 2 u = [0x30, 0x78] \<or> take 2 u = [0x30, 0x58]);
          radix = (if hex then 16 else 10);
          v = (if hex then drop 2 u else u);
          ds = takeWhile (isRadixDigit radix) v
      in if ds = [] then NaN
         else if radix_value radix ds < 2 ^ 53 then Integer (sign * radix_value radix ds)
         else Beyond (sign = - 1))"

section \<open>Insertion-ordered maps, sets and arrays\<close>

text \<open>
  A \<open>Map\<close> keeps its keys in the order of their first insertion; \<open>set\<close> on a key
  already there changes the value and leaves the position. It is an association list
  with distinct keys.
\<close>

fun map_set :: "'k \<Rightarrow> 'v \<Rightarrow> ('k \<times> 'v) list \<Rightarrow> ('k \<times> 'v) list" where
  "map_set k v [] = [(k, v)]"
| "map_set k v (p # ps) = (if fst p = k then (k, v) # ps else p # map_set k v ps)"

definition map_get :: "('k \<times> 'v) list \<Rightarrow> 'k \<Rightarrow> 'v option" where
  "map_get m k = map_of m k"

text \<open>\<open>m.set(k, (m.get(k) || 0) + 1)\<close>\<close>

definition count_key :: "('k \<times> nat) list \<Rightarrow> 'k \<Rightarrow> ('k \<times> nat) list" where
  "count_key m k = map_set k ((case map_get m k of None \<Rightarrow> 0 | Some c \<Rightarrow> c) + 1) m"

text \<open>
  \<open>[...new Set(xs)]\<close>: a \<open>Set\<close> iterates in insertion order, and adding an element
  already there changes nothing.
\<close>

definition set_add :: "'a list \<Rightarrow> 'a \<Rightarrow> 'a list" where
  "set_add s x = (if x \<in> set s then s else s @ [x])"

definition new_Set :: "'a list \<Rightarrow> 'a list" where
  "new_Set xs = foldl set_add [] xs"

text \<open>
  \<open>xs.sort(cmp)\<close> is a stable sort (ECMAScript 2019). For a comparator that orders by
  a key, the sorted array is determined by stability alone; it is computed here by
  inserting each element, from the last to the first, before the first element that
  does not have to precede it.
\<close>

fun insort_cmp :: "('a \<Rightarrow> 'a \<Rightarrow> int) \<Rightarrow> 'a \<Rightarrow> 'a list \<Rightarrow> 'a list" where
  "insort_cmp cmp x [] = [x]"
| "insort_cmp cmp x (y # ys) = (if cmp x y \<le> 0 then x # y # ys else y # insort_cmp cmp x ys)"

definition array_sort :: "('a \<Rightarrow> 'a \<Rightarrow> int) \<Rightarrow> 'a list \<Rightarrow> 'a list" where
  "array_sort cmp xs = foldr (insort_cmp cmp) xs []"

text \<open>The comparator \<open>(a, b) => b[1] - a[1]\<close>.\<close>

definition by_count_desc :: "('k \<times> nat) \<Rightarrow> ('k \<times> nat) \<Rightarrow> int" where
  "by_count_desc a b = int (snd b) - int (snd a)"

text \<open>\<open>xs.slice(0, e)\<close> for an integer \<open>e\<close>: a negative end counts from the end of the array.\<close>

definition array_slice0 :: "int \<Rightarrow> 'a list \<Rightarrow> 'a list" where
  "array_slice0 e xs =
     (let len = int (length xs);
          final = (if e < 0 then max (len + e) 0 else min e len)
      in take (nat final) xs)"

text \<open>
  The position of the first occurrence of \<open>x\<close> in \<open>ys\<close> (the length of \<open>ys\<close> when
  there is none), and the ranking of the specification: more frequent first, and among
  equally frequent keys the one seen first.
\<close>

fun first_index :: "'a list \<Rightarrow> 'a \<Rightarrow> nat" where
  "first_index [] x = 0"
| "first_index (y # ys) x = (if x = y then 0 else Suc (first_index ys x))"

definition rank_before :: "'k list \<Rightarrow> 'k \<Rightarrow> 'k \<Rightarrow> bool" where
  "rank_before ks a b \<longleftrightarrow>
     count_list ks a > count_list ks b \<or>
     (count_list ks a = count_list ks b \<and> first_index ks a < first_index ks b)"


section \<open>ContentAnalyzer: dictionary mood score\<close>

definition positiveWords :: "jsstring list" where
  "positiveWords =
     [[0x5F00, 0x5FC3], [0x5FEB, 0x4E50], [0x9AD8, 0x5174], [0x5E78, 0x798F],
      [0x6EE1, 0x610F], [0x6210, 0x529F], [0x559C, 0x6B22]]"

definition negativeWords :: "jsstring list" where
  "negativeWords =
     [[0x96BE, 0x8FC7], [0x4F24, 0x5FC3], [0x5931, 0x671B], [0x7126, 0x8651],
      [0x75DB, 0x82E6], [0x751F, 0x6C14], [0x8BA8, 0x538C]]"

text \<open>\<open>words.reduce((count, word) => count + matches(word), 0)\<close>\<close>

definition positiveCount :: "jsstring \<Rightarrow> int" where
  "positiveCount t = foldl (\<lambda>count word. count + int (match_count word t)) 0 positiveWords"

definition negativeCount :: "jsstring \<Rightarrow> int" where
  "negativeCount t = foldl (\<lambda>count word. count + int (match_count word t)) 0 negativeWords"

definition analyzeMoodWithDictionary :: "jsstring \<Rightarrow> int" where
  "analyzeMoodWithDictionary t =
     (let score = 3; p = positiveCount t; n = negativeCount t
      in if p > n then score + min 2 (p - n)
         else if n > p then score - min 2 (n - p)
         else score)"

section \<open>ContentAnalyzer: keywords by frequency\<close>

text \<open>The class \<open>[\u4e00-\u9fa5a-zA-Z0-9]\<close> that the cleaning regular expression negates.\<close>

definition isWordChar :: "jschar \<Rightarrow> bool" where
  "isWordChar c \<longleftrightarrow>
     (0x4E00 \<le> c \<and> c \<le> 0x9FA5) \<or> (0x61 \<le> c \<and> c \<le> 0x7A) \<or>
     (0x41 \<le> c \<and> c \<le> 0x5A) \<or> (0x30 \<le> c \<and> c \<le> 0x39)"

definition cleanText :: "jsstring \<Rightarrow> jsstring" where
  "cleanText t = map (\<lambda>c. if isWordChar c then c else 0x20) t"

definition wordFreq :: "jsstring list \<Rightarrow> (jsstring \<times> nat) list" where
  "wordFreq ws = foldl (\<lambda>m word. if length word > 1 then count_key m word else m) [] ws"

definition extractKeywordsWithFrequency :: "int \<Rightarrow> jsstring \<Rightarrow> jsstring list" where
  "extractKeywordsWithFrequency maxKeywords t =
     (let ws = split_whitespace [] (cleanText t)
      in map fst (array_slice0 maxKeywords (array_sort by_count_desc (wordFreq ws))))"

text \<open>The tokens that are counted: the pieces of the cleaned text longer than one character.\<close>

definition keyword_tokens :: "jsstring \<Rightarrow> jsstring list" where
  "keyword_tokens t = filter (\<lambda>word. length word > 1) (split_whitespace [] (cleanText t))"

section \<open>ContentAnalyzer: mood score\<close>

text \<open>
  The regular expression of the mood marker: the two ideographs U+5FC3 U+60C5, a
  full-width or an ASCII colon, any white space, and at least one digit, which is the
  captured group. \<open>mood_at\<close> matches at the start of its argument, \<open>moodRegex_match\<close>
  finds the leftmost match and returns the group.
\<close>

definition mood_at :: "jsstring \<Rightarrow> jsstring option" where
  "mood_at s =
     (if take 2 s = [0x5FC3, 0x60C5] \<and> (take 1 (drop 2 s) = [0xFF1A] \<or> take 1 (drop 2 s) = [0x3A])
      then (let r = dropWhile isWhiteSpace (drop 3 s)
            in if takeWhile isDigit r = [] then None else Some (takeWhile isDigit r))
      else None)"

fun moodRegex_match :: "jsstring \<Rightarrow> jsstring option" where
  "moodRegex_match [] = None"
| "moodRegex_match (c # cs) =
     (case mood_at (c # cs) of Some g \<Rightarrow> Some g | None \<Rightarrow> moodRegex_match cs)"

text \<open>
  The mood that \<open>DiaryParser.extractMetadata\<close> stores in \<open>metadata.mood\<close>: the same
  regular expression on the same text, and \<open>parseInt\<close> of the group. \<open>None\<close> is the
  field left unset.
\<close>

definition extractMetadata_mood :: "jsstring \<Rightarrow> number option" where
  "extractMetadata_mood content =
     (case moodRegex_match content of None \<Rightarrow> None | Some g \<Rightarrow> Some (parseInt g))"

datatype error =
    LengthMismatch  \<comment> \<open>Diaries and analyses arrays must have the same length\<close>
  | NoAIService  \<comment> \<open>No AI service available\<close>
  | CompletionFailed  \<comment> \<open>thrown by the \<open>complete\<close> of a service\<close>

text \<open>
  An AI service is its \<open>complete\<close>: from the prompt to the completion, or to the error
  it throws. The analyzer holds an optional OpenAI service and an optional Ollama one.
\<close>

type_synonym service = "jsstring \<Rightarrow> error + jsstring"

definition moodPrompt :: "jsstring \<Rightarrow> jsstring" where
  "moodPrompt t =
     [0x8BF7, 0x5206, 0x6790, 0x4EE5, 0x4E0B, 0x65E5, 0x8BB0, 0x6587, 0x672C, 0x7684,
      0x60C5, 0x611F, 0x503E, 0x5411, 0xFF0C, 0x7ED9, 0x51FA, 0x31, 0x2D, 0x35, 0x7684,
      0x5206, 0x6570, 0xFF08, 0x31, 0x6700, 0x6D88, 0x6781, 0xFF0C, 0x35, 0x6700, 0x79EF,
      0x6781, 0xFF09, 0xFF1A, 0x0A, 0x0A] @ t"

text \<open>
  \<open>score >= 1 && score <= 5 ? score : 3\<close>: every comparison with \<open>NaN\<close> is false,
  and a \<open>Beyond\<close> value is below 1 or above 5.
\<close>

definition score_or_default :: "number \<Rightarrow> int" where
  "score_or_default score =
     (case score of
        NaN \<Rightarrow> 3
      | Integer n \<Rightarrow> if n \<ge> 1 \<and> n \<le> 5 then n else 3
      | Beyond neg \<Rightarrow> 3)"

definition analyzeMoodWithAI :: "service option \<Rightarrow> service option \<Rightarrow> jsstring \<Rightarrow> error + int" where
  "analyzeMoodWithAI openAI ollama t =
     (case openAI of
        Some svc \<Rightarrow>
          (case svc (moodPrompt t) of Inl e \<Rightarrow> Inl e
           | Inr response \<Rightarrow> Inr (score_or_default (parseInt response)))
      | None \<Rightarrow>
          (case ollama of
             Some svc \<Rightarrow>
               (case svc (moodPrompt t) of Inl e \<Rightarrow> Inl e
                | Inr response \<Rightarrow> Inr (score_or_default (parseInt response)))
           | None \<Rightarrow> Inl NoAIService))"

definition analyzeMoodScore :: "service option \<Rightarrow> service option \<Rightarrow> jsstring \<Rightarrow> error + int" where
  "analyzeMoodScore openAI ollama t =
     (let marked =
            (case moodRegex_match t of None \<Rightarrow> None
             | Some g \<Rightarrow>
                 (case parseInt g of
                    NaN \<Rightarrow> None
                  | Integer mood \<Rightarrow> if mood \<ge> 1 \<and> mood \<le> 5 then Some mood else None
                  | Beyond neg \<Rightarrow> None))
      in case marked of
           Some mood \<Rightarrow> Inr mood
         | None \<Rightarrow>
             if openAI \<noteq> None \<or> ollama \<noteq> None then analyzeMoodWithAI openAI ollama t
             else Inr (analyzeMoodWithDictionary t))"

text \<open>
  The configured backend of the specification: the service that answers when one is
  set, OpenAI before Ollama.
\<close>

definition configured_service :: "service option \<Rightarrow> service option \<Rightarrow> service option" where
  "configured_service openAI ollama = (case openAI of Some svc \<Rightarrow> Some svc | None \<Rightarrow> ollama)"

section \<open>ContentAnalyzer: activities by rules\<close>

definition activityMarkers :: "jsstring list" where
  "activityMarkers =
     [[0x53BB], [0x505A], [0x5B8C, 0x6210], [0x53C2, 0x52A0], [0x5F00, 0x59CB], [0x7ED3, 0x675F]]"

text \<open>The sentence ends U+3002, U+FF01, U+FF1F, and the class that ends a phrase: these and the comma U+FF0C.\<close>

definition isSentenceEnd :: "jschar \<Rightarrow> bool" where
  "isSentenceEnd c \<longleftrightarrow> c = 0x3002 \<or> c = 0xFF01 \<or> c = 0xFF1F"

definition isPhraseEnd :: "jschar \<Rightarrow> bool" where
  "isPhraseEnd c \<longleftrightarrow> c = 0xFF0C \<or> c = 0x3002 \<or> c = 0xFF01 \<or> c = 0xFF1F"

text \<open>
  \<open>sentence.match(new RegExp(marker + '([^...]+)'))\<close>: the leftmost occurrence of the
  marker that is followed by a character outside the class; the group is the longest
  run of such characters after it.
\<close>

fun phrase_match :: "jsstring \<Rightarrow> jsstring \<Rightarrow> jsstring option" where
  "phrase_match marker [] = None"
| "phrase_match marker (c # cs) =
     (let rest = drop (length marker) (c # cs)
      in if take (length marker) (c # cs) = marker \<and> takeWhile (\<lambda>x. \<not> isPhraseEnd x) rest \<noteq> []
         then Some (takeWhile (\<lambda>x. \<not> isPhraseEnd x) rest)
         else phrase_match marker cs)"

text \<open>The inner loop over the markers and the outer loop over the sentences, pushing to \<open>activities\<close>.\<close>

definition sentence_activities :: "jsstring list \<Rightarrow> jsstring \<Rightarrow> jsstring list" where
  "sentence_activities activities sentence =
     foldl (\<lambda>acts marker.
              if string_includes sentence marker
              then (case phrase_match marker sentence of
                      Some g \<Rightarrow> if g \<noteq> [] then acts @ [trim g] else acts
                    | None \<Rightarrow> acts)
              else acts)
       activities activityMarkers"

definition collectActivities :: "jsstring \<Rightarrow> jsstring list" where
  "collectActivities t = foldl sentence_activities [] (split_chars isSentenceEnd [] t)"

definition extractActivitiesWithRules :: "jsstring \<Rightarrow> jsstring list" where
  "extractActivitiesWithRules t = new_Set (collectActivities t)"

section \<open>ContentAnalyzer: simple summary\<close>

definition generateSimpleSummary :: "jsstring \<Rightarrow> jsstring" where
  "generateSimpleSummary t =
     (let firstParagraph = split_first [0x0A, 0x0A] t
      in if length firstParagraph \<le> 100 then firstParagraph
         else take 100 firstParagraph @ [0x2E, 0x2E, 0x2E])"

section \<open>DiaryParser: the date of a diary\<close>

text \<open>
  A \<open>Date\<close> is its time value, the milliseconds since the epoch; the invalid date is
  not a value of the type, since the parser never returns it.
  \<open>moment(s, format)\<close> belongs to a library: it is a parameter \<open>moment\<close> of the
  model, \<open>None\<close> when \<open>isValid()\<close> is false. \<open>now\<close> is the value of \<open>new Date()\<close>.
\<close>

type_synonym Date = int

text \<open>The regular expression of a date in the content: four digits, \<open>-\<close> or \<open>/\<close>, two digits, \<open>-\<close> or \<open>/\<close>, two digits.\<close>

definition isDateSep :: "jschar \<Rightarrow> bool" where
  "isDateSep c \<longleftrightarrow> c = 0x2D \<or> c = 0x2F"

definition date_at :: "jsstring \<Rightarrow> bool" where
  "date_at s \<longleftrightarrow>
     length s \<ge> 10 \<and>
     list_all isDigit (take 4 s) \<and> isDateSep (s ! 4) \<and>
     list_all isDigit (take 2 (drop 5 s)) \<and> isDateSep (s ! 7) \<and>
     list_all isDigit (take 2 (drop 8 s))"

fun dateRegex_match :: "jsstring \<Rightarrow> jsstring option" where
  "dateRegex_match [] = None"
| "dateRegex_match (c # cs) =
     (if date_at (c # cs) then Some (take 10 (c # cs)) else dateRegex_match cs)"

definition extractDateInfo ::
  "(jsstring \<Rightarrow> jsstring \<Rightarrow> Date option) \<Rightarrow> Date \<Rightarrow> jsstring \<Rightarrow> jsstring \<Rightarrow> jsstring \<Rightarrow> Date" where
  "extractDateInfo moment now dateFormat fileName content =
     (case moment (split_first [0x2E] fileName) dateFormat of
        Some fileNameDate \<Rightarrow> fileNameDate
      | None \<Rightarrow>
          (case dateRegex_match content of
             Some m \<Rightarrow>
               (case moment m [0x59, 0x59, 0x59, 0x59, 0x2D, 0x4D, 0x4D, 0x2D, 0x44, 0x44] of
                  Some contentDate \<Rightarrow> contentDate
                | None \<Rightarrow> now)
           | None \<Rightarrow> now))"

section \<open>TimelineGenerator\<close>

text \<open>The fields \<open>keywords\<close> and \<open>id\<close> of the source carry a prime here.\<close>

record Metadata =
  title :: "jsstring option"
  tags :: "jsstring list option"
  mood :: "number option"

record DiaryContent =
  date :: Date
  content :: jsstring
  metadata :: Metadata

record AnalysisResult =
  keywords' :: "jsstring list"
  moodScore :: int
  summary :: jsstring
  activities :: "jsstring list"

record TimelineEntry =
  id' :: jsstring
  date :: Date
  title :: jsstring
  summary :: jsstring
  keywords' :: "jsstring list"
  moodScore :: int
  activities :: "jsstring list"

text \<open>
  \<open>date.toLocaleDateString('zh-CN', ...)\<close> is the runtime's: a parameter
  \<open>toLocaleDateString\<close>. The suffix is a space and the ideographs U+7684 U+65E5 U+8BB0.
\<close>

definition generateTitle :: "(Date \<Rightarrow> jsstring) \<Rightarrow> Date \<Rightarrow> jsstring" where
  "generateTitle toLocaleDateString d = toLocaleDateString d @ [0x20, 0x7684, 0x65E5, 0x8BB0]"

text \<open>\<open>diary.metadata.title || this.generateTitle(diary.date)\<close>: the empty string is falsy, as \<open>undefined\<close> is.\<close>

definition entry_title :: "(Date \<Rightarrow> jsstring) \<Rightarrow> DiaryContent \<Rightarrow> jsstring" where
  "entry_title toLocaleDateString diary =
     (case Metadata.title (metadata diary) of
        Some t \<Rightarrow> if t \<noteq> [] then t else generateTitle toLocaleDateString (DiaryContent.date diary)
      | None \<Rightarrow> generateTitle toLocaleDateString (DiaryContent.date diary))"

text \<open>
  \<open>uuidv4()\<close> is random: the parameter \<open>uuidv4\<close> gives the identifier that the call
  for each index returns; \<open>map\<close> visits the indices in order.
\<close>

definition generateTimelineData ::
  "(nat \<Rightarrow> jsstring) \<Rightarrow> (Date \<Rightarrow> jsstring) \<Rightarrow> DiaryContent list \<Rightarrow> AnalysisResult list
     \<Rightarrow> error + TimelineEntry list" where
  "generateTimelineData uuidv4 toLocaleDateString diaries analyses =
     (if length diaries \<noteq> length analyses then Inl LengthMismatch
      else Inr (map (\<lambda>index.
                  let diary = diaries ! index
                  in \<lparr>id' = uuidv4 index,
                      date = DiaryContent.date diary,
                      title = entry_title toLocaleDateString diary,
                      summary = AnalysisResult.summary (analyses ! index),
                      keywords' = AnalysisResult.keywords' (analyses ! index),
                      moodScore = AnalysisResult.moodScore (analyses ! index),
                      activities = AnalysisResult.activities (analyses ! index)\<rparr>)
                [0..<length diaries]))"

text \<open>An absent bound is \<open>None\<close>; a \<open>Date\<close> object is truthy whatever its value.\<close>

definition filterEntriesByDateRange ::
  "TimelineEntry list \<Rightarrow> Date option \<Rightarrow> Date option \<Rightarrow> TimelineEntry list" where
  "filterEntriesByDateRange entries startDate endDate =
     filter (\<lambda>entry.
        if startDate \<noteq> None \<and> TimelineEntry.date entry < the startDate then False
        else if endDate \<noteq> None \<and> TimelineEntry.date entry > the endDate then False
        else True) entries"

text \<open>The bound of the specification: inclusive when supplied, no constraint when omitted.\<close>

definition not_before :: "Date option \<Rightarrow> Date \<Rightarrow> bool" where
  "not_before bound d = (case bound of None \<Rightarrow> True | Some s \<Rightarrow> s \<le> d)"

definition not_after :: "Date option \<Rightarrow> Date \<Rightarrow> bool" where
  "not_after bound d = (case bound of None \<Rightarrow> True | Some e \<Rightarrow> d \<le> e)"

definition keywordCount :: "TimelineEntry list \<Rightarrow> (jsstring \<times> nat) list" where
  "keywordCount entries =
     foldl (\<lambda>m entry. foldl count_key m (TimelineEntry.keywords' entry)) [] entries"

definition findTopKeywords :: "TimelineEntry list \<Rightarrow> int \<Rightarrow> (jsstring \<times> nat) list" where
  "findTopKeywords entries limit =
     array_slice0 limit (array_sort by_count_desc (keywordCount entries))"

text \<open>The call of \<open>generateTimelineStats\<close>, with the default limit.\<close>

definition topKeywords :: "TimelineEntry list \<Rightarrow> (jsstring \<times> nat) list" where
  "topKeywords entries = findTopKeywords entries 10"

text \<open>All the keywords of the entries, in the order in which they are counted.\<close>

definition all_keywords :: "TimelineEntry list \<Rightarrow> jsstring list" where
  "all_keywords entries = concat (map TimelineEntry.keywords' entries)"

section \<open>The dictionary mood score\<close>

lemma match_count_pair: "a \<noteq> b \<Longrightarrow> match_count [a, b] t = occurrences [a, b] t"
proof (induction t rule: length_induct)
  case (1 t)
  show ?case
  proof (cases t)
    case Nil
    then show ?thesis by (simp add: match_count.simps)
  next
    case (Cons c cs)
    show ?thesis
    proof (cases "take 2 t = [a, b]")
      case True
      then obtain rest where t: "t = a # b # rest"
        using Cons by (cases cs) auto
      have "match_count [a, b] t = Suc (match_count [a, b] rest)"
        using t by (subst match_count.simps) simp
      also have "match_count [a, b] rest = occurrences [a, b] rest"
        using 1 t by simp
      finally show ?thesis using t \<open>a \<noteq> b\<close> by (cases rest) auto
    next
      case False
      then have "match_count [a, b] t = match_count [a, b] cs"
        using Cons by (subst match_count.simps) auto
      also have "\<dots> = occurrences [a, b] cs"
        using 1 Cons by simp
      finally show ?thesis using False Cons by simp
    qed
  qed
qed

lemma positiveCount_occurrences:
  "positiveCount t = (\<Sum>w\<leftarrow>positiveWords. int (occurrences w t))"
  by (simp add: positiveCount_def positiveWords_def match_count_pair)

lemma negativeCount_occurrences:
  "negativeCount t = (\<Sum>w\<leftarrow>negativeWords. int (occurrences w t))"
  by (simp add: negativeCount_def negativeWords_def match_count_pair)

text \<open>
  C2. The dictionary score is 3 plus the surplus of positive over negative occurrences,
  capped at 2 in either direction: \<open>3 + min 2 (p - n)\<close> when \<open>p > n\<close>,
  \<open>3 - min 2 (n - p)\<close> when \<open>n > p\<close>, and 3 when they are equal, where \<open>p\<close>
  and \<open>n\<close> count every occurrence of every word of the positive and of the negative
  dictionary. So the score lies between 1 and 5; two positive occurrences and no
  negative one give 5, three negative and no positive give 1.
\<close>

theorem analyzeMoodWithDictionary_score:
  "analyzeMoodWithDictionary t =
     (if positiveCount t > negativeCount t then 3 + min 2 (positiveCount t - negativeCount t)
      else if negativeCount t > positiveCount t then 3 - min 2 (negativeCount t - positiveCount t)
      else 3)
   \<and> positiveCount t = (\<Sum>w\<leftarrow>positiveWords. int (occurrences w t))
   \<and> negativeCount t = (\<Sum>w\<leftarrow>negativeWords. int (occurrences w t))
   \<and> 1 \<le> analyzeMoodWithDictionary t \<and> analyzeMoodWithDictionary t \<le> 5
   \<and> (positiveCount t = 2 \<and> negativeCount t = 0 \<longrightarrow> analyzeMoodWithDictionary t = 5)
   \<and> (positiveCount t = 0 \<and> negativeCount t = 3 \<longrightarrow> analyzeMoodWithDictionary t = 1)
   \<and> (positiveCount t = negativeCount t \<longrightarrow> analyzeMoodWithDictionary t = 3)"
proof -
  have "analyzeMoodWithDictionary t =
     (if positiveCount t > negativeCount t then 3 + min 2 (positiveCount t - negativeCount t)
      else if negativeCount t > positiveCount t then 3 - min 2 (negativeCount t - positiveCount t)
      else 3)"
    by (simp add: analyzeMoodWithDictionary_def Let_def)
  then show ?thesis
    using positiveCount_occurrences[of t] negativeCount_occurrences[of t] by (auto simp: min_def)
qed

theorem analyzeMoodWithDictionary_score_witness:
  "analyzeMoodWithDictionary [0x5F00, 0x5FC3, 0x5FEB, 0x4E50] = 5 \<and>
   analyzeMoodWithDictionary [0x96BE, 0x8FC7, 0x96BE, 0x8FC7, 0x4F24, 0x5FC3] = 1 \<and>
   analyzeMoodWithDictionary [0x5F00, 0x5FC3, 0x96BE, 0x8FC7] = 3"
proof -
  have p1: "positiveCount [0x5F00, 0x5FC3, 0x5FEB, 0x4E50] = 2 \<and>
            negativeCount [0x5F00, 0x5FC3, 0x5FEB, 0x4E50] = 0"
    by (simp add: positiveCount_def negativeCount_def positiveWords_def negativeWords_def
        match_count.simps)
  have p2: "positiveCount [0x96BE, 0x8FC7, 0x96BE, 0x8FC7, 0x4F24, 0x5FC3] = 0 \<and>
            negativeCount [0x96BE, 0x8FC7, 0x96BE, 0x8FC7, 0x4F24, 0x5FC3] = 3"
    by (simp add: positiveCount_def negativeCount_def positiveWords_def negativeWords_def
        match_count.simps)
  have p3: "positiveCount [0x5F00, 0x5FC3, 0x96BE, 0x8FC7] =
            negativeCount [0x5F00, 0x5FC3, 0x96BE, 0x8FC7]"
    by (simp add: positiveCount_def negativeCount_def positiveWords_def negativeWords_def
        match_count.simps)
  show ?thesis
    using p1 p2 p3
      analyzeMoodWithDictionary_score[of "[0x5F00, 0x5FC3, 0x5FEB, 0x4E50]"]
      analyzeMoodWithDictionary_score[of "[0x96BE, 0x8FC7, 0x96BE, 0x8FC7, 0x4F24, 0x5FC3]"]
      analyzeMoodWithDictionary_score[of "[0x5F00, 0x5FC3, 0x96BE, 0x8FC7]"]
    by blast
qed

section \<open>Counting in an insertion-ordered map, and the stable sort\<close>

lemma first_index_append:
  "first_index (xs @ ys) a =
     (if a \<in> set xs then first_index xs a else length xs + first_index ys a)"
  by (induction xs) auto

lemma first_index_less: "a \<in> set xs \<Longrightarrow> first_index xs a < length xs"
  by (induction xs) auto

lemma map_fst_map_set:
  "map fst (map_set k v m) = (if k \<in> fst ` set m then map fst m else map fst m @ [k])"
  by (induction m) auto

lemma map_of_map_set: "map_of (map_set k v m) = (map_of m)(k \<mapsto> v)"
  by (induction m) (auto simp: fun_eq_iff)

lemma keys_count_key:
  "map fst (count_key m k) = (if k \<in> set (map fst m) then map fst m else map fst m @ [k])"
  by (simp add: count_key_def map_fst_map_set)

lemma keys_counted: "set (map fst (foldl count_key [] ks)) = set ks"
proof (induction ks rule: rev_induct)
  case Nil
  show ?case by simp
next
  case (snoc k ks)
  then show ?case by (auto simp: keys_count_key simp del: set_map)
qed

lemma distinct_keys_counted: "distinct (map fst (foldl count_key [] ks))"
proof (induction ks rule: rev_induct)
  case Nil
  show ?case by simp
next
  case (snoc k ks)
  then show ?case by (simp add: keys_count_key)
qed

lemma keys_counted_first_seen:
  "sorted_wrt (\<lambda>a b. first_index ks a < first_index ks b) (map fst (foldl count_key [] ks))"
proof (induction ks rule: rev_induct)
  case Nil
  show ?case by simp
next
  case (snoc k ks)
  let ?keys = "map fst (foldl count_key [] ks)"
  have keys: "set ?keys = set ks" by (rule keys_counted)
  have old: "sorted_wrt (\<lambda>a b. first_index (ks @ [k]) a < first_index (ks @ [k]) b) ?keys"
    using snoc.IH keys
    by (auto simp: first_index_append elim!: sorted_wrt_mono_rel[rotated])
  show ?case
  proof (cases "k \<in> set ks")
    case True
    with old keys show ?thesis by (simp add: keys_count_key del: set_map)
  next
    case False
    with old keys show ?thesis
      by (auto simp: keys_count_key sorted_wrt_append first_index_append first_index_less
          simp del: set_map)
  qed
qed

lemma values_counted:
  "map_of (foldl count_key [] ks) k = (if k \<in> set ks then Some (count_list ks k) else None)"
proof (induction ks rule: rev_induct)
  case Nil
  show ?case by simp
next
  case (snoc x ks)
  then show ?case
    by (auto simp: count_key_def map_of_map_set map_get_def)
qed

lemma entry_counted:
  assumes "(k, c) \<in> set (foldl count_key [] ks)"
  shows "c = count_list ks k"
proof -
  have "map_of (foldl count_key [] ks) k = Some c"
    using assms distinct_keys_counted[of ks] by simp
  then show ?thesis by (simp add: values_counted split: if_splits)
qed

lemma set_insort_cmp: "set (insort_cmp cmp x ys) = insert x (set ys)"
  by (induction ys) auto

lemma set_array_sort: "set (array_sort cmp xs) = set xs"
  by (induction xs) (auto simp: array_sort_def set_insort_cmp)

lemma distinct_map_insort_cmp:
  "distinct (map f (insort_cmp cmp x ys)) = (f x \<notin> f ` set ys \<and> distinct (map f ys))"
  by (induction ys) (auto simp: set_insort_cmp)

lemma distinct_map_array_sort: "distinct (map f (array_sort cmp xs)) = distinct (map f xs)"
proof (induction xs)
  case Nil
  show ?case by (simp add: array_sort_def)
next
  case (Cons x xs)
  have "array_sort cmp (x # xs) = insort_cmp cmp x (array_sort cmp xs)"
    by (simp add: array_sort_def)
  with Cons show ?case by (simp add: distinct_map_insort_cmp set_array_sort)
qed

lemma sorted_insort_cmp:
  assumes "sorted_wrt (\<lambda>a b. snd a > snd b \<or> (snd a = snd b \<and> R a b)) ys"
    and "\<forall>y\<in>set ys. R x y"
  shows "sorted_wrt (\<lambda>a b. snd a > snd b \<or> (snd a = snd b \<and> R a b))
           (insort_cmp by_count_desc x ys)"
  using assms
proof (induction ys)
  case Nil
  show ?case by simp
next
  case (Cons y ys)
  show ?case
  proof (cases "by_count_desc x y \<le> 0")
    case True
    then have "snd y \<le> snd x" by (simp add: by_count_desc_def)
    moreover have "\<forall>z\<in>set ys. snd z \<le> snd y" using Cons.prems(1) by auto
    ultimately have "\<forall>z\<in>set (y # ys). snd z \<le> snd x" by auto
    with Cons.prems True show ?thesis by (auto simp: le_less)
  next
    case False
    then have "snd x < snd y" by (simp add: by_count_desc_def)
    with Cons False show ?thesis by (auto simp: set_insort_cmp)
  qed
qed

lemma sorted_array_sort:
  "sorted_wrt R xs \<Longrightarrow>
   sorted_wrt (\<lambda>a b. snd a > snd b \<or> (snd a = snd b \<and> R a b)) (array_sort by_count_desc xs)"
proof (induction xs)
  case Nil
  show ?case by (simp add: array_sort_def)
next
  case (Cons x xs)
  have "\<forall>y\<in>set (array_sort by_count_desc xs). R x y"
    using Cons.prems by (simp add: set_array_sort)
  moreover have "sorted_wrt (\<lambda>a b. snd a > snd b \<or> (snd a = snd b \<and> R a b))
                   (array_sort by_count_desc xs)"
    using Cons by simp
  ultimately show ?case
    using sorted_insort_cmp[of R "array_sort by_count_desc xs" x] by (simp add: array_sort_def)
qed

text \<open>The sorted table of counts: its keys are ranked, and each carries its count.\<close>

lemma ranked_counts:
  fixes ks :: "'k list"
  defines "tab \<equiv> array_sort by_count_desc (foldl count_key [] ks)"
  shows "distinct (map fst tab)"
    and "set (map fst tab) = set ks"
    and "sorted_wrt (rank_before ks) (map fst tab)"
    and "map snd tab = map (count_list ks) (map fst tab)"
proof -
  let ?m = "foldl count_key [] ks"
  show "distinct (map fst tab)"
    by (simp add: tab_def distinct_map_array_sort distinct_keys_counted)
  show "set (map fst tab) = set ks"
    using keys_counted[of ks] by (simp add: tab_def set_array_sort)
  have cnt: "\<forall>p\<in>set tab. snd p = count_list ks (fst p)"
    using entry_counted[of _ _ ks] by (auto simp: tab_def set_array_sort)
  then show "map snd tab = map (count_list ks) (map fst tab)"
    by (induction tab) auto
  have "sorted_wrt (\<lambda>a b. first_index ks (fst a) < first_index ks (fst b)) ?m"
    using keys_counted_first_seen[of ks] by (simp add: sorted_wrt_map)
  then have "sorted_wrt (\<lambda>a b. snd a > snd b \<or>
               (snd a = snd b \<and> first_index ks (fst a) < first_index ks (fst b))) tab"
    unfolding tab_def by (rule sorted_array_sort)
  moreover have "rank_before ks (fst a) (fst b)"
    if "a \<in> set tab" "b \<in> set tab"
      and "snd a > snd b \<or> (snd a = snd b \<and> first_index ks (fst a) < first_index ks (fst b))"
    for a b
    using that cnt by (simp add: rank_before_def)
  ultimately have "sorted_wrt (\<lambda>a b. rank_before ks (fst a) (fst b)) tab"
    by (rule sorted_wrt_mono_rel[rotated])
  then show "sorted_wrt (rank_before ks) (map fst tab)"
    by (simp add: sorted_wrt_map)
qed

lemma array_slice0_nat: "array_slice0 (int k) xs = take k xs"
  by (simp add: array_slice0_def Let_def min_def)

section \<open>Keywords by frequency\<close>

lemma foldl_conditional:
  "foldl (\<lambda>m x. if P x then f m x else m) m xs = foldl f m (filter P xs)"
  by (induction xs arbitrary: m) auto

lemma wordFreq_tokens:
  "wordFreq (split_whitespace [] (cleanText t)) = foldl count_key [] (keyword_tokens t)"
  by (simp add: wordFreq_def keyword_tokens_def foldl_conditional)

lemma split_whitespace_chars:
  "w \<in> set (split_whitespace cur s) \<Longrightarrow> c \<in> set w \<Longrightarrow>
   c \<in> set cur \<or> (c \<in> set s \<and> \<not> isWhiteSpace c)"
proof (induction cur s rule: split_whitespace.induct)
  case (1 cur)
  then show ?case by simp
next
  case (2 cur c' cs)
  show ?case
  proof (cases "isWhiteSpace c'")
    case True
    with 2 show ?thesis by (auto dest: set_dropWhileD)
  next
    case False
    with 2 show ?thesis by auto
  qed
qed

lemma isWhiteSpace_space: "isWhiteSpace 0x20"
  by (simp add: isWhiteSpace_def)

lemma keyword_tokens_chars:
  assumes "w \<in> set (keyword_tokens t)"
  shows "length w > 1 \<and> list_all isWordChar w"
proof -
  have w: "w \<in> set (split_whitespace [] (cleanText t))" and len: "length w > 1"
    using assms by (simp_all add: keyword_tokens_def)
  have "isWordChar c" if "c \<in> set w" for c
  proof -
    have "c \<in> set (cleanText t) \<and> \<not> isWhiteSpace c"
      using split_whitespace_chars[OF w that] by simp
    then show ?thesis
      using isWhiteSpace_space by (auto simp: cleanText_def split: if_splits)
  qed
  with len show ?thesis by (simp add: list_all_iff)
qed

text \<open>A distinct list of two keys that is ranked has the more frequent key first.\<close>

lemma ranked_pair:
  assumes "distinct r" and "set r = {A, B}" and "sorted_wrt (rank_before ks) r"
    and "count_list ks A < count_list ks B"
  shows "r = [B, A]"
proof -
  have ne: "A \<noteq> B" using assms(4) by auto
  have "length r = 2"
    using assms(1,2) ne distinct_card[of r] by simp
  then obtain x y where r: "r = [x, y]"
    by (cases r; cases "tl r") auto
  with assms(2) ne assms(1) have "(x = A \<and> y = B) \<or> (x = B \<and> y = A)"
    by (auto simp: doubleton_eq_iff)
  moreover have "\<not> rank_before ks A B"
    using assms(4) by (simp add: rank_before_def)
  ultimately show ?thesis using r assms(3) by auto
qed

text \<open>
  C3. The text is cleaned (every character that is not a CJK ideograph, an ASCII
  letter or a digit becomes a space), split on white space, and the tokens longer than
  one character are counted. The keywords are a prefix of one ranking of the distinct
  tokens: by falling count, and among equal counts by first occurrence; with
  \<open>maxKeywords = k\<close> the prefix has the first \<open>k\<close> of them. Every keyword is longer
  than one character and made of the kept characters only. When the tokens are \<open>A\<close>,
  once, and \<open>B\<close>, three times, \<open>maxKeywords = 1\<close> gives exactly \<open>[B]\<close>.
\<close>

theorem extractKeywordsWithFrequency_ranked:
  "(\<exists>ranking.
      distinct ranking \<and> set ranking = set (keyword_tokens t) \<and>
      sorted_wrt (rank_before (keyword_tokens t)) ranking \<and>
      (\<forall>k. extractKeywordsWithFrequency (int k) t = take k ranking)) \<and>
   keyword_tokens t = filter (\<lambda>word. length word > 1)
      (split_whitespace [] (map (\<lambda>c. if isWordChar c then c else 0x20) t)) \<and>
   (\<forall>w \<in> set (extractKeywordsWithFrequency (int k) t). length w > 1 \<and> list_all isWordChar w) \<and>
   (\<forall>A B. set (keyword_tokens t) = {A, B} \<and> count_list (keyword_tokens t) A = 1 \<and>
      count_list (keyword_tokens t) B = 3 \<longrightarrow> extractKeywordsWithFrequency 1 t = [B])"
proof -
  let ?ks = "keyword_tokens t"
  let ?r = "map fst (array_sort by_count_desc (foldl count_key [] ?ks))"
  have ex: "extractKeywordsWithFrequency (int k) t = take k ?r" for k
    by (simp add: extractKeywordsWithFrequency_def wordFreq_tokens array_slice0_nat take_map)
  have d: "distinct ?r" and s: "set ?r = set ?ks" and r: "sorted_wrt (rank_before ?ks) ?r"
    using ranked_counts(1-3)[of ?ks] by simp_all
  have one: "extractKeywordsWithFrequency 1 t = [B]"
    if "set ?ks = {A, B}" "count_list ?ks A = 1" "count_list ?ks B = 3" for A B
  proof -
    have lt: "count_list ?ks A < count_list ?ks B"
      using that(2,3) by linarith
    have sr: "set ?r = {A, B}"
      using s that(1) by simp
    have "?r = [B, A]"
      by (rule ranked_pair[OF d sr r lt])
    then show ?thesis using ex[of 1] by simp
  qed
  have chars: "length w > 1 \<and> list_all isWordChar w"
    if "w \<in> set (extractKeywordsWithFrequency (int k) t)" for w
  proof -
    have "w \<in> set ?r" using that ex[of k] by (auto dest: in_set_takeD)
    then show ?thesis using s keyword_tokens_chars by blast
  qed
  have "\<exists>ranking. distinct ranking \<and> set ranking = set ?ks \<and>
      sorted_wrt (rank_before ?ks) ranking \<and>
      (\<forall>k. extractKeywordsWithFrequency (int k) t = take k ranking)"
    using d s r ex by blast
  moreover have "?ks = filter (\<lambda>word. length word > 1)
      (split_whitespace [] (map (\<lambda>c. if isWordChar c then c else 0x20) t))"
    by (simp add: keyword_tokens_def cleanText_def)
  ultimately show ?thesis using one chars by blast
qed

text \<open>The text \<open>ab cd,cd\<close>, two newlines, \<open>cd\<close> and a space.\<close>

theorem extractKeywordsWithFrequency_ranked_witness:
  "extractKeywordsWithFrequency 1
     [0x61, 0x62, 0x20, 0x63, 0x64, 0x2C, 0x63, 0x64, 0x0A, 0x0A, 0x63, 0x64, 0x20] = [[0x63, 0x64]]"
proof -
  let ?t = "[0x61, 0x62, 0x20, 0x63, 0x64, 0x2C, 0x63, 0x64, 0x0A, 0x0A, 0x63, 0x64, 0x20] :: jsstring"
  have toks: "keyword_tokens ?t = [[0x61, 0x62], [0x63, 0x64], [0x63, 0x64], [0x63, 0x64]]"
    by (simp add: keyword_tokens_def cleanText_def isWordChar_def isWhiteSpace_def)
  have "set (keyword_tokens ?t) = {[0x61, 0x62], [0x63, 0x64]} \<and>
        count_list (keyword_tokens ?t) [0x61, 0x62] = 1 \<and>
        count_list (keyword_tokens ?t) [0x63, 0x64] = 3"
    unfolding toks by simp
  then show ?thesis
    using extractKeywordsWithFrequency_ranked[of ?t 0] by blast
qed

section \<open>The most frequent keywords of a timeline\<close>

lemma foldl_count_key_concat:
  "foldl (\<lambda>m x. foldl count_key m (f x)) m xs = foldl count_key m (concat (map f xs))"
  by (induction xs arbitrary: m) auto

lemma keywordCount_all: "keywordCount entries = foldl count_key [] (all_keywords entries)"
  by (simp add: keywordCount_def all_keywords_def foldl_count_key_concat)

lemma nth_first_index: "x \<in> set xs \<Longrightarrow> xs ! first_index xs x = x"
  by (induction xs) auto

lemma first_index_take:
  "x \<in> set (take k xs) \<Longrightarrow> first_index (take k xs) x = first_index xs x"
  using first_index_append[of "take k xs" "drop k xs" x] by simp

lemma first_index_less_take:
  assumes "x \<in> set (take k xs)"
  shows "first_index xs x < k"
proof -
  have "first_index (take k xs) x < length (take k xs)"
    using assms by (rule first_index_less)
  then show ?thesis using assms by (simp add: first_index_take)
qed

lemma in_take_first_index:
  assumes "x \<in> set xs" and "first_index xs x < k"
  shows "x \<in> set (take k xs)"
proof -
  have "first_index xs x < length xs" using assms(1) by (rule first_index_less)
  then have "take k xs ! first_index xs x = x"
    using assms by (simp add: nth_first_index)
  moreover have "first_index xs x < length (take k xs)"
    using assms(2) \<open>first_index xs x < length xs\<close> by simp
  ultimately show ?thesis by (metis nth_mem)
qed

lemma sorted_wrt_first_index:
  assumes "sorted_wrt R r" and "A \<in> set r" and "B \<in> set r" and "R A B" and "\<not> R B A"
  shows "first_index r A < first_index r B"
  using assms
proof (induction r)
  case Nil
  then show ?case by simp
next
  case (Cons x xs)
  show ?case
  proof (cases "A = x")
    case True
    with Cons.prems show ?thesis by auto
  next
    case False
    then have A: "A \<in> set xs" using Cons.prems by simp
    have "B \<noteq> x" using Cons.prems A by auto
    with Cons False A show ?thesis by auto
  qed
qed

text \<open>
  C6. The keywords of all the entries are counted in the order of the entries. The
  result is a prefix of one ranking of the distinct keywords, each with its count: by
  falling count, and among equal counts by first occurrence; the prefix has
  \<open>limit\<close> pairs, 10 by default. So of two keywords with equal counts, when the one
  seen later is returned, the one seen first is returned too, and before it.
\<close>

theorem findTopKeywords_ranked:
  "(\<exists>ranking.
      distinct (map fst ranking) \<and> set (map fst ranking) = set (all_keywords entries) \<and>
      sorted_wrt (rank_before (all_keywords entries)) (map fst ranking) \<and>
      map snd ranking = map (count_list (all_keywords entries)) (map fst ranking) \<and>
      (\<forall>limit. findTopKeywords entries (int limit) = take limit ranking) \<and>
      topKeywords entries = take 10 ranking) \<and>
   (\<forall>A B. A \<in> set (all_keywords entries) \<and>
      count_list (all_keywords entries) A = count_list (all_keywords entries) B \<and>
      first_index (all_keywords entries) A < first_index (all_keywords entries) B \<and>
      B \<in> set (map fst (topKeywords entries)) \<longrightarrow>
      A \<in> set (map fst (topKeywords entries)) \<and>
      first_index (map fst (topKeywords entries)) A < first_index (map fst (topKeywords entries)) B)"
proof -
  let ?ks = "all_keywords entries"
  let ?tab = "array_sort by_count_desc (foldl count_key [] ?ks)"
  let ?r = "map fst ?tab"
  have lim: "findTopKeywords entries (int limit) = take limit ?tab" for limit
    by (simp add: findTopKeywords_def keywordCount_all array_slice0_nat)
  have top: "topKeywords entries = take 10 ?tab"
    using lim[of 10] by (simp add: topKeywords_def)
  have d: "distinct ?r" and s: "set ?r = set ?ks" and r: "sorted_wrt (rank_before ?ks) ?r"
    and c: "map snd ?tab = map (count_list ?ks) ?r"
    using ranked_counts[of ?ks] by simp_all
  have tie: "A \<in> set (map fst (topKeywords entries)) \<and>
      first_index (map fst (topKeywords entries)) A < first_index (map fst (topKeywords entries)) B"
    if A: "A \<in> set ?ks" and eq: "count_list ?ks A = count_list ?ks B"
      and first: "first_index ?ks A < first_index ?ks B"
      and B: "B \<in> set (map fst (topKeywords entries))" for A B
  proof -
    have t: "map fst (topKeywords entries) = take 10 ?r"
      by (simp add: top take_map)
    have Br: "B \<in> set ?r" using B t by (auto dest: in_set_takeD)
    have Ar: "A \<in> set ?r" using A s by simp
    have "rank_before ?ks A B" and "\<not> rank_before ?ks B A"
      using eq first by (simp_all add: rank_before_def)
    with r Ar Br have lt: "first_index ?r A < first_index ?r B"
      by (rule sorted_wrt_first_index)
    moreover have "first_index ?r B < 10"
      using B t first_index_less_take[of B 10 ?r] by simp
    ultimately have Ain: "A \<in> set (take 10 ?r)"
      using Ar by (intro in_take_first_index) simp_all
    have Bin: "B \<in> set (take 10 ?r)" using B t by simp
    show ?thesis
      using lt Ain Bin by (simp add: t first_index_take)
  qed
  have "\<exists>ranking.
      distinct (map fst ranking) \<and> set (map fst ranking) = set ?ks \<and>
      sorted_wrt (rank_before ?ks) (map fst ranking) \<and>
      map snd ranking = map (count_list ?ks) (map fst ranking) \<and>
      (\<forall>limit. findTopKeywords entries (int limit) = take limit ranking) \<and>
      topKeywords entries = take 10 ranking"
    using d s r c lim top by blast
  then show ?thesis using tie by blast
qed


text \<open>
  Two entries with the keywords U+5DE5 U+4F5C, U+5B66 U+4E60, U+5DE5 U+4F5C and
  U+5B66 U+4E60, U+5B66 U+4E60, U+5DE5 U+4F5C: three times each, the former seen first.
\<close>

theorem findTopKeywords_ranked_witness:
  "topKeywords
     [\<lparr>id' = [], date = 0, title = [], summary = [],
       keywords' = [[0x5DE5, 0x4F5C], [0x5B66, 0x4E60], [0x5DE5, 0x4F5C]],
       moodScore = 3, activities = []\<rparr>,
      \<lparr>id' = [], date = 0, title = [], summary = [],
       keywords' = [[0x5B66, 0x4E60], [0x5B66, 0x4E60], [0x5DE5, 0x4F5C]],
       moodScore = 3, activities = []\<rparr>]
     = [([0x5DE5, 0x4F5C], 3), ([0x5B66, 0x4E60], 3)] \<and>
   first_index (map fst (topKeywords
     [\<lparr>id' = [], date = 0, title = [], summary = [],
       keywords' = [[0x5DE5, 0x4F5C], [0x5B66, 0x4E60], [0x5DE5, 0x4F5C]],
       moodScore = 3, activities = []\<rparr>,
      \<lparr>id' = [], date = 0, title = [], summary = [],
       keywords' = [[0x5B66, 0x4E60], [0x5B66, 0x4E60], [0x5DE5, 0x4F5C]],
       moodScore = 3, activities = []\<rparr>])) [0x5DE5, 0x4F5C]
   < first_index (map fst (topKeywords
     [\<lparr>id' = [], date = 0, title = [], summary = [],
       keywords' = [[0x5DE5, 0x4F5C], [0x5B66, 0x4E60], [0x5DE5, 0x4F5C]],
       moodScore = 3, activities = []\<rparr>,
      \<lparr>id' = [], date = 0, title = [], summary = [],
       keywords' = [[0x5B66, 0x4E60], [0x5B66, 0x4E60], [0x5DE5, 0x4F5C]],
       moodScore = 3, activities = []\<rparr>])) [0x5B66, 0x4E60]"
proof -
  let ?es = "[\<lparr>id' = [], date = 0, title = [], summary = [],
       keywords' = [[0x5DE5, 0x4F5C], [0x5B66, 0x4E60], [0x5DE5, 0x4F5C]],
       moodScore = 3, activities = []\<rparr>,
      \<lparr>id' = [], date = 0, title = [], summary = [],
       keywords' = [[0x5B66, 0x4E60], [0x5B66, 0x4E60], [0x5DE5, 0x4F5C]],
       moodScore = 3, activities = []\<rparr>]"
  have ks: "all_keywords ?es =
      [[0x5DE5, 0x4F5C], [0x5B66, 0x4E60], [0x5DE5, 0x4F5C],
       [0x5B66, 0x4E60], [0x5B66, 0x4E60], [0x5DE5, 0x4F5C]]"
    by (simp add: all_keywords_def)
  have top: "topKeywords ?es = [([0x5DE5, 0x4F5C], 3), ([0x5B66, 0x4E60], 3)]"
    by (simp add: topKeywords_def findTopKeywords_def keywordCount_def count_key_def
        map_get_def array_sort_def by_count_desc_def array_slice0_def)
  have "[0x5DE5, 0x4F5C] \<in> set (all_keywords ?es) \<and>
      count_list (all_keywords ?es) [0x5DE5, 0x4F5C] = count_list (all_keywords ?es) [0x5B66, 0x4E60] \<and>
      first_index (all_keywords ?es) [0x5DE5, 0x4F5C] < first_index (all_keywords ?es) [0x5B66, 0x4E60] \<and>
      [0x5B66, 0x4E60] \<in> set (map fst (topKeywords ?es))"
    unfolding ks top by simp
  then have "first_index (map fst (topKeywords ?es)) [0x5DE5, 0x4F5C]
      < first_index (map fst (topKeywords ?es)) [0x5B66, 0x4E60]"
    using findTopKeywords_ranked[of ?es] by blast
  with top show ?thesis by blast
qed

section \<open>Activities without duplicates\<close>

lemma set_new_Set: "set (new_Set xs) = set xs"
  unfolding new_Set_def
proof (induction xs rule: rev_induct)
  case Nil
  show ?case by simp
next
  case (snoc x xs)
  then show ?case by (auto simp: set_add_def)
qed

lemma distinct_new_Set: "distinct (new_Set xs)"
  unfolding new_Set_def
proof (induction xs rule: rev_induct)
  case Nil
  show ?case by simp
next
  case (snoc x xs)
  then show ?case by (simp add: set_add_def)
qed

lemma new_Set_first_seen:
  "sorted_wrt (\<lambda>a b. first_index xs a < first_index xs b) (new_Set xs)"
proof (induction xs rule: rev_induct)
  case Nil
  show ?case by (simp add: new_Set_def)
next
  case (snoc x xs)
  have step: "new_Set (xs @ [x]) = set_add (new_Set xs) x"
    by (simp add: new_Set_def)
  have old: "sorted_wrt (\<lambda>a b. first_index (xs @ [x]) a < first_index (xs @ [x]) b) (new_Set xs)"
    using snoc.IH
    by (auto simp: first_index_append set_new_Set elim!: sorted_wrt_mono_rel[rotated])
  show ?case
  proof (cases "x \<in> set xs")
    case True
    with old show ?thesis by (simp add: step set_add_def set_new_Set)
  next
    case False
    with old show ?thesis
      by (auto simp: step set_add_def set_new_Set sorted_wrt_append first_index_append
          first_index_less)
  qed
qed

text \<open>
  C10. The activities returned are the phrases collected from the sentences, each
  once: the list has no duplicates, holds exactly the collected phrases, and lists
  them in the order of their first occurrence among the collected phrases.
\<close>

theorem extractActivitiesWithRules_first_seen:
  "distinct (extractActivitiesWithRules t) \<and>
   set (extractActivitiesWithRules t) = set (collectActivities t) \<and>
   sorted_wrt (\<lambda>a b. first_index (collectActivities t) a < first_index (collectActivities t) b)
     (extractActivitiesWithRules t)"
  by (simp add: extractActivitiesWithRules_def distinct_new_Set set_new_Set new_Set_first_seen)

section \<open>The simple summary\<close>

lemma split_first_prefix:
  "\<exists>rest. t = split_first sep t @ rest \<and> (rest = [] \<or> take (length sep) rest = sep)"
  by (induction t) auto

lemma string_includes_short: "length s < length w \<Longrightarrow> \<not> string_includes s w"
  by (induction s) auto

lemma split_first_first:
  "sep \<noteq> [] \<Longrightarrow>
   \<not> string_includes (take (length (split_first sep t) + length sep - 1) t) sep"
proof (induction t)
  case Nil
  then show ?case by simp
next
  case (Cons c cs)
  show ?case
  proof (cases "take (length sep) (c # cs) = sep")
    case True
    have "length (take (length sep - 1) (c # cs)) < length sep"
      using Cons.prems by (cases sep) auto
    then have "\<not> string_includes (take (length sep - 1) (c # cs)) sep"
      by (rule string_includes_short)
    with True show ?thesis by simp
  next
    case False
    have "take (length sep) (c # take (length (split_first sep cs) + length sep - 1) cs)
        = take (length sep) (c # cs)"
      using Cons.prems by (cases sep) (simp_all add: min_def)
    moreover have "take (length (split_first sep (c # cs)) + length sep - 1) (c # cs)
        = c # take (length (split_first sep cs) + length sep - 1) cs"
      using False Cons.prems by (cases sep) auto
    ultimately show ?thesis
      using False Cons by (simp del: split_first.simps take_Suc_Cons)
  qed
qed

text \<open>
  C8. The first paragraph is the text before the first pair of newlines (the whole
  text when there is none). The summary is the first paragraph when it has at most 100
  characters, and otherwise its first 100 characters followed by three full stops; so
  it has at most 103 characters.
\<close>

theorem generateSimpleSummary_first_paragraph:
  "generateSimpleSummary t =
     (if length (split_first [0x0A, 0x0A] t) \<le> 100 then split_first [0x0A, 0x0A] t
      else take 100 (split_first [0x0A, 0x0A] t) @ [0x2E, 0x2E, 0x2E]) \<and>
   length (generateSimpleSummary t) \<le> 103 \<and>
   (\<exists>rest. t = split_first [0x0A, 0x0A] t @ rest \<and> (rest = [] \<or> take 2 rest = [0x0A, 0x0A])) \<and>
   \<not> string_includes (take (length (split_first [0x0A, 0x0A] t) + 1) t) [0x0A, 0x0A]"
proof -
  have "\<exists>rest. t = split_first [0x0A, 0x0A] t @ rest \<and> (rest = [] \<or> take 2 rest = [0x0A, 0x0A])"
    using split_first_prefix[of t "[0x0A, 0x0A]"] by (simp add: numeral_2_eq_2)
  moreover have "\<not> string_includes (take (length (split_first [0x0A, 0x0A] t) + 1) t) [0x0A, 0x0A]"
    using split_first_first[of "[0x0A, 0x0A]" t] by simp
  ultimately show ?thesis
    by (simp add: generateSimpleSummary_def Let_def)
qed

section \<open>The timeline\<close>

text \<open>
  C7. The entries kept are those whose date is not before the start, when a start is
  given, and not after the end, when an end is given, in their order; both bounds are
  inclusive. With the bounds 2024-01-01 and 2024-01-31 (as milliseconds since the epoch,
  at midnight UTC), an entry dated 2024-01-01 is kept and none dated 2024-02-01 is.
\<close>

theorem filterEntriesByDateRange_inclusive:
  "filterEntriesByDateRange entries startDate endDate =
     filter (\<lambda>entry. not_before startDate (TimelineEntry.date entry) \<and>
                      not_after endDate (TimelineEntry.date entry)) entries \<and>
   filterEntriesByDateRange entries None None = entries \<and>
   (\<forall>entry \<in> set entries. TimelineEntry.date entry = 1704067200000 \<longrightarrow>
      entry \<in> set (filterEntriesByDateRange entries (Some 1704067200000) (Some 1706659200000))) \<and>
   (\<forall>entry. TimelineEntry.date entry = 1706745600000 \<longrightarrow>
      entry \<notin> set (filterEntriesByDateRange entries (Some 1704067200000) (Some 1706659200000)))"
proof -
  have eq: "filterEntriesByDateRange entries s e =
     filter (\<lambda>entry. not_before s (TimelineEntry.date entry) \<and>
                      not_after e (TimelineEntry.date entry)) entries" for s e
    unfolding filterEntriesByDateRange_def not_before_def not_after_def
    by (rule filter_cong) (auto split: option.splits)
  show ?thesis
    unfolding eq by (simp add: not_before_def not_after_def)
qed

theorem filterEntriesByDateRange_inclusive_witness:
  "filterEntriesByDateRange
     [\<lparr>id' = [0x61], date = 1704067200000, title = [], summary = [], keywords' = [],
       moodScore = 3, activities = []\<rparr>,
      \<lparr>id' = [0x62], date = 1706745600000, title = [], summary = [], keywords' = [],
       moodScore = 3, activities = []\<rparr>]
     (Some 1704067200000) (Some 1706659200000)
   = [\<lparr>id' = [0x61], date = 1704067200000, title = [], summary = [], keywords' = [],
       moodScore = 3, activities = []\<rparr>]"
proof -
  let ?a = "\<lparr>id' = [0x61], date = 1704067200000, title = [], summary = [], keywords' = [],
       moodScore = 3, activities = []\<rparr>"
  let ?b = "\<lparr>id' = [0x62], date = 1706745600000, title = [], summary = [], keywords' = [],
       moodScore = 3, activities = []\<rparr>"
  let ?r = "filterEntriesByDateRange [?a, ?b] (Some 1704067200000) (Some 1706659200000)"
  note T = filterEntriesByDateRange_inclusive[of "[?a, ?b]" "Some 1704067200000" "Some 1706659200000"]
  from T have "\<forall>entry \<in> set [?a, ?b]. TimelineEntry.date entry = 1704067200000 \<longrightarrow> entry \<in> set ?r"
    by blast
  then have a: "?a \<in> set ?r" by simp
  from T have "\<forall>entry. TimelineEntry.date entry = 1706745600000 \<longrightarrow> entry \<notin> set ?r"
    by blast
  then have b: "?b \<notin> set ?r" by simp
  from T obtain P where P: "?r = filter P [?a, ?b]" by blast
  show ?thesis
    using a b unfolding P by (cases "P ?a"; cases "P ?b") simp_all
qed

text \<open>
  C1. Building the timeline fails with the length error exactly when the two lists
  differ in length. When they have the same length the result has that length too, and
  its entry at each index has the date of the diary at that index and the summary, the
  keywords, the mood score and the activities of the analysis at that index.
\<close>

theorem generateTimelineData_zip:
  "(generateTimelineData uuidv4 toLocaleDateString diaries analyses = Inl LengthMismatch
      \<longleftrightarrow> length diaries \<noteq> length analyses) \<and>
   (isl (generateTimelineData uuidv4 toLocaleDateString diaries analyses)
      \<longleftrightarrow> length diaries \<noteq> length analyses) \<and>
   (length diaries = length analyses \<longrightarrow>
      (\<exists>entries. generateTimelineData uuidv4 toLocaleDateString diaries analyses = Inr entries \<and>
         length entries = length diaries \<and>
         (\<forall>i < length diaries.
            TimelineEntry.date (entries ! i) = DiaryContent.date (diaries ! i) \<and>
            TimelineEntry.summary (entries ! i) = AnalysisResult.summary (analyses ! i) \<and>
            TimelineEntry.keywords' (entries ! i) = AnalysisResult.keywords' (analyses ! i) \<and>
            TimelineEntry.moodScore (entries ! i) = AnalysisResult.moodScore (analyses ! i) \<and>
            TimelineEntry.activities (entries ! i) = AnalysisResult.activities (analyses ! i))))"
  by (simp add: generateTimelineData_def Let_def)

text \<open>One diary with one analysis, and three diaries with two analyses.\<close>

theorem generateTimelineData_zip_witness:
  "(\<exists>entries.
      generateTimelineData (\<lambda>i. [0x61]) (\<lambda>d. [0x62])
        [\<lparr>DiaryContent.date = 1704067200000, content = [0x63], metadata = \<lparr>Metadata.title = None, tags = None, mood = None\<rparr>\<rparr>]
        [\<lparr>AnalysisResult.keywords' = [[0x64, 0x65]], moodScore = 4, summary = [0x63], activities = [[0x66]]\<rparr>]
        = Inr entries \<and>
      length entries = 1 \<and>
      TimelineEntry.date (entries ! 0) = 1704067200000 \<and>
      TimelineEntry.summary (entries ! 0) = [0x63] \<and>
      TimelineEntry.keywords' (entries ! 0) = [[0x64, 0x65]] \<and>
      TimelineEntry.moodScore (entries ! 0) = 4 \<and>
      TimelineEntry.activities (entries ! 0) = [[0x66]]) \<and>
   generateTimelineData (\<lambda>i. [0x61]) (\<lambda>d. [0x62])
     (replicate 3 \<lparr>DiaryContent.date = 0, content = [], metadata = \<lparr>Metadata.title = None, tags = None, mood = None\<rparr>\<rparr>)
     (replicate 2 \<lparr>AnalysisResult.keywords' = [], moodScore = 3, summary = [], activities = []\<rparr>)
     = Inl LengthMismatch"
proof -
  let ?d = "\<lparr>DiaryContent.date = 1704067200000, content = [0x63],
             metadata = \<lparr>Metadata.title = None, tags = None, mood = None\<rparr>\<rparr>"
  let ?a = "\<lparr>AnalysisResult.keywords' = [[0x64, 0x65]], moodScore = 4, summary = [0x63], activities = [[0x66]]\<rparr>"
  have "length [?d] = length [?a]" by simp
  with generateTimelineData_zip[of "\<lambda>i. [0x61]" "\<lambda>d. [0x62]" "[?d]" "[?a]"]
  obtain entries where
    "generateTimelineData (\<lambda>i. [0x61]) (\<lambda>d. [0x62]) [?d] [?a] = Inr entries"
    "length entries = length [?d]"
    "\<forall>i < length [?d].
            TimelineEntry.date (entries ! i) = DiaryContent.date ([?d] ! i) \<and>
            TimelineEntry.summary (entries ! i) = AnalysisResult.summary ([?a] ! i) \<and>
            TimelineEntry.keywords' (entries ! i) = AnalysisResult.keywords' ([?a] ! i) \<and>
            TimelineEntry.moodScore (entries ! i) = AnalysisResult.moodScore ([?a] ! i) \<and>
            TimelineEntry.activities (entries ! i) = AnalysisResult.activities ([?a] ! i)"
    by blast
  then have one: "\<exists>entries.
      generateTimelineData (\<lambda>i. [0x61]) (\<lambda>d. [0x62]) [?d] [?a] = Inr entries \<and>
      length entries = 1 \<and>
      TimelineEntry.date (entries ! 0) = 1704067200000 \<and>
      TimelineEntry.summary (entries ! 0) = [0x63] \<and>
      TimelineEntry.keywords' (entries ! 0) = [[0x64, 0x65]] \<and>
      TimelineEntry.moodScore (entries ! 0) = 4 \<and>
      TimelineEntry.activities (entries ! 0) = [[0x66]]"
    by simp
  let ?ds = "replicate 3 \<lparr>DiaryContent.date = 0, content = [], metadata = \<lparr>Metadata.title = None, tags = None, mood = None\<rparr>\<rparr>"
  let ?as = "replicate 2 \<lparr>AnalysisResult.keywords' = [], moodScore = 3, summary = [], activities = []\<rparr>"
  have "length ?ds \<noteq> length ?as" by simp
  with generateTimelineData_zip[of "\<lambda>i. [0x61]" "\<lambda>d. [0x62]" ?ds ?as]
  have "generateTimelineData (\<lambda>i. [0x61]) (\<lambda>d. [0x62]) ?ds ?as = Inl LengthMismatch"
    by blast
  with one show ?thesis by blast
qed

text \<open>
  C9, as stated, fails: a diary whose metadata title is present and empty gets the
  generated label, since the empty string is falsy.
\<close>

theorem entry_title_counterexample:
  "\<not> (\<forall>uuidv4 toLocaleDateString diaries analyses entries i t.
        generateTimelineData uuidv4 toLocaleDateString diaries analyses = Inr entries \<and>
        i < length entries \<and> Metadata.title (metadata (diaries ! i)) = Some t
        \<longrightarrow> TimelineEntry.title (entries ! i) = t)"
proof
  assume claim: "\<forall>uuidv4 toLocaleDateString diaries analyses entries i t.
        generateTimelineData uuidv4 toLocaleDateString diaries analyses = Inr entries \<and>
        i < length entries \<and> Metadata.title (metadata (diaries ! i)) = Some t
        \<longrightarrow> TimelineEntry.title (entries ! i) = t"
  let ?d = "\<lparr>DiaryContent.date = 1704067200000, content = [0x23, 0x20, 0x20],
             metadata = \<lparr>Metadata.title = Some [], tags = None, mood = None\<rparr>\<rparr>"
  let ?a = "\<lparr>AnalysisResult.keywords' = [], moodScore = 3, summary = [], activities = []\<rparr>"
  let ?e = "\<lparr>id' = [0x61], date = 1704067200000, title = [0x62, 0x20, 0x7684, 0x65E5, 0x8BB0],
             summary = [], keywords' = [], moodScore = 3, activities = []\<rparr>"
  have "generateTimelineData (\<lambda>i. [0x61]) (\<lambda>d. [0x62]) [?d] [?a] = Inr [?e]"
    by (simp add: generateTimelineData_def entry_title_def generateTitle_def)
  with claim have "TimelineEntry.title ([?e] ! 0) = []"
    by (elim allE[where x = "\<lambda>i. [0x61]"] allE[where x = "\<lambda>d. [0x62]"]
        allE[where x = "[?d]"] allE[where x = "[?a]"] allE[where x = "[?e]"]
        allE[where x = 0] allE[where x = "[]"]) simp
  then show False by simp
qed

text \<open>
  C9, amended. The title of the entry at each index is the metadata title of the diary
  when that is present and not empty; when it is absent or empty it is the label made
  of the locale-formatted date of the diary, a space and the ideographs U+7684 U+65E5
  U+8BB0.
\<close>

theorem entry_title_or_label:
  "length diaries = length analyses \<longrightarrow>
     (\<exists>entries. generateTimelineData uuidv4 toLocaleDateString diaries analyses = Inr entries \<and>
        (\<forall>i < length diaries.
           (\<forall>t. Metadata.title (metadata (diaries ! i)) = Some t \<and> t \<noteq> [] \<longrightarrow>
                TimelineEntry.title (entries ! i) = t) \<and>
           (Metadata.title (metadata (diaries ! i)) = None \<or>
            Metadata.title (metadata (diaries ! i)) = Some [] \<longrightarrow>
                TimelineEntry.title (entries ! i) =
                  toLocaleDateString (DiaryContent.date (diaries ! i)) @ [0x20, 0x7684, 0x65E5, 0x8BB0])))"
  by (auto simp: generateTimelineData_def entry_title_def generateTitle_def Let_def)


text \<open>A diary titled \<open>T\<close> and a diary whose title is the empty string.\<close>

theorem entry_title_or_label_witness:
  "\<exists>entries.
     generateTimelineData (\<lambda>i. [0x61]) (\<lambda>d. [0x62])
       [\<lparr>DiaryContent.date = 0, content = [],
         metadata = \<lparr>Metadata.title = Some [0x54], tags = None, mood = None\<rparr>\<rparr>,
        \<lparr>DiaryContent.date = 0, content = [],
         metadata = \<lparr>Metadata.title = Some [], tags = None, mood = None\<rparr>\<rparr>]
       [\<lparr>AnalysisResult.keywords' = [], moodScore = 3, summary = [], activities = []\<rparr>,
        \<lparr>AnalysisResult.keywords' = [], moodScore = 3, summary = [], activities = []\<rparr>]
       = Inr entries \<and>
     TimelineEntry.title (entries ! 0) = [0x54] \<and>
     TimelineEntry.title (entries ! 1) = [0x62, 0x20, 0x7684, 0x65E5, 0x8BB0]"
proof -
  let ?ds = "[\<lparr>DiaryContent.date = 0, content = [],
         metadata = \<lparr>Metadata.title = Some [0x54], tags = None, mood = None\<rparr>\<rparr>,
        \<lparr>DiaryContent.date = 0, content = [],
         metadata = \<lparr>Metadata.title = Some [], tags = None, mood = None\<rparr>\<rparr>]"
  let ?as = "[\<lparr>AnalysisResult.keywords' = [], moodScore = 3, summary = [], activities = []\<rparr>,
        \<lparr>AnalysisResult.keywords' = [], moodScore = 3, summary = [], activities = []\<rparr>]"
  have "length ?ds = length ?as" by simp
  with entry_title_or_label[of ?ds ?as "\<lambda>i. [0x61]" "\<lambda>d. [0x62]"]
  obtain entries where e: "generateTimelineData (\<lambda>i. [0x61]) (\<lambda>d. [0x62]) ?ds ?as = Inr entries"
    and t: "\<forall>i < length ?ds.
           (\<forall>t. Metadata.title (metadata (?ds ! i)) = Some t \<and> t \<noteq> [] \<longrightarrow>
                TimelineEntry.title (entries ! i) = t) \<and>
           (Metadata.title (metadata (?ds ! i)) = None \<or>
            Metadata.title (metadata (?ds ! i)) = Some [] \<longrightarrow>
                TimelineEntry.title (entries ! i) =
                  (\<lambda>d. [0x62]) (DiaryContent.date (?ds ! i)) @ [0x20, 0x7684, 0x65E5, 0x8BB0])"
    by blast
  from t have "TimelineEntry.title (entries ! 0) = [0x54]"
    by (elim allE[where x = 0]) simp
  moreover from t have "TimelineEntry.title (entries ! 1) = [0x62, 0x20, 0x7684, 0x65E5, 0x8BB0]"
    by (elim allE[where x = 1]) simp
  ultimately show ?thesis using e by blast
qed

section \<open>The mood score\<close>

lemma isDigit_not_space: "isDigit c \<Longrightarrow> \<not> isWhiteSpace c"
  by (auto simp: isDigit_def isWhiteSpace_def word_le_def)

lemma isDigit_radix: "isDigit c \<Longrightarrow> isRadixDigit 10 c"
  by (auto simp: isDigit_def isRadixDigit_def digit_value_def word_le_def)

lemma isDigit_plain: "isDigit c \<Longrightarrow> c \<noteq> 0x2D \<and> c \<noteq> 0x2B \<and> c \<noteq> 0x78 \<and> c \<noteq> 0x58"
  by (auto simp: isDigit_def)

lemma parseInt_digits:
  assumes "g \<noteq> []" and "list_all isDigit g"
  shows "parseInt g =
           (if radix_value 10 g < 2 ^ 53 then Integer (radix_value 10 g) else Beyond False)"
proof -
  obtain c cs where g: "g = c # cs" using assms(1) by (cases g) auto
  have c: "isDigit c" using assms(2) g by simp
  have sp: "dropWhile isWhiteSpace g = g"
    using g isDigit_not_space[OF c] by simp
  have sign: "take 1 g \<noteq> [0x2D]" "take 1 g \<noteq> [0x2B]"
    using g isDigit_plain[OF c] by simp_all
  have hex: "take 2 g \<noteq> [0x30, 0x78]" "take 2 g \<noteq> [0x30, 0x58]"
  proof -
    have "x \<noteq> 0x78 \<and> x \<noteq> 0x58" if "x \<in> set g" for x
      using that assms(2) isDigit_plain[of x] by (simp add: list_all_iff)
    then have "0x78 \<notin> set (take 2 g)" "0x58 \<notin> set (take 2 g)"
      by (auto dest: in_set_takeD)
    then show "take 2 g \<noteq> [0x30, 0x78]" "take 2 g \<noteq> [0x30, 0x58]"
      by auto
  qed
  have "\<forall>x\<in>set g. isRadixDigit 10 x"
    using assms(2) isDigit_radix by (simp add: list_all_iff)
  then have ds: "takeWhile (isRadixDigit 10) g = g"
    by simp
  have "parseInt g =
      (if takeWhile (isRadixDigit 10) g = [] then NaN
       else if radix_value 10 (takeWhile (isRadixDigit 10) g) < 2 ^ 53
         then Integer (radix_value 10 (takeWhile (isRadixDigit 10) g))
         else Beyond False)"
    unfolding parseInt_def Let_def sp
    using sign hex by simp
  then show ?thesis
    unfolding ds using assms(1) by simp
qed

lemma mood_at_digits: "mood_at s = Some g \<Longrightarrow> g \<noteq> [] \<and> list_all isDigit g"
  by (auto simp: mood_at_def Let_def list_all_iff split: if_splits dest: set_takeWhileD)

lemma moodRegex_match_digits: "moodRegex_match t = Some g \<Longrightarrow> g \<noteq> [] \<and> list_all isDigit g"
proof (induction t)
  case Nil
  then show ?case by simp
next
  case (Cons c cs)
  then show ?case
    using mood_at_digits[of "c # cs" g] by (auto split: option.splits)
qed

text \<open>
  A marked mood too long for a double: the marker followed by 9007199254740993 stores
  a rounded value, which is no mood between 1 and 5.
\<close>

lemma extractMetadata_mood_rounded:
  "extractMetadata_mood
     [0x5FC3, 0x60C5, 0xFF1A, 0x39, 0x30, 0x30, 0x37, 0x31, 0x39, 0x39, 0x32, 0x35, 0x34, 0x37,
      0x34, 0x30, 0x39, 0x39, 0x33] = Some (Beyond False)"
  by (simp add: extractMetadata_mood_def mood_at_def isWhiteSpace_def isDigit_def parseInt_def
      isRadixDigit_def digit_value_def radix_value_def)

text \<open>
  C5. A mood written in the text with the marker comes first: the value matched from
  the text, which is the value the parser stores in the metadata of the record, is
  returned as it is when it lies between 1 and 5, whatever services are configured.
  Otherwise, when a service is configured and it answers, an answer that
  \<open>parseInt\<close> does not read as an integer, or reads as one outside 1 to 5, gives 3
  and no error. The group the marker captures is a non-empty digit string, which
  \<open>parseInt\<close> never reads as \<open>NaN\<close>; the stored mood is its decimal value when
  that is below \<open>2 ^ 53\<close>.
\<close>

theorem analyzeMoodScore_precedence:
  "(\<forall>N. extractMetadata_mood t = Some (Integer N) \<and> 1 \<le> N \<and> N \<le> 5 \<longrightarrow>
        analyzeMoodScore openAI ollama t = Inr N) \<and>
   (\<forall>g N. moodRegex_match t = Some g \<and> parseInt g = Integer N \<and> 1 \<le> N \<and> N \<le> 5 \<longrightarrow>
        analyzeMoodScore openAI ollama t = Inr N) \<and>
   (\<forall>g. moodRegex_match t = Some g \<longrightarrow>
        g \<noteq> [] \<and> list_all isDigit g \<and> extractMetadata_mood t = Some (parseInt g) \<and>
        parseInt g \<noteq> NaN \<and>
        (radix_value 10 g < 2 ^ 53 \<longrightarrow>
           extractMetadata_mood t = Some (Integer (radix_value 10 g)))) \<and>
   (\<forall>svc response.
        \<not> (\<exists>N. extractMetadata_mood t = Some (Integer N) \<and> 1 \<le> N \<and> N \<le> 5) \<and>
        configured_service openAI ollama = Some svc \<and> svc (moodPrompt t) = Inr response \<and>
        (parseInt response = NaN \<or>
         (\<exists>n. parseInt response = Integer n \<and> (n < 1 \<or> 5 < n)) \<or>
         (\<exists>neg. parseInt response = Beyond neg)) \<longrightarrow>
        analyzeMoodScore openAI ollama t = Inr 3)"
proof -
  have a: "analyzeMoodScore openAI ollama t = Inr N"
    if "moodRegex_match t = Some g" "parseInt g = Integer N" "1 \<le> N" "N \<le> 5" for g N
    using that by (simp add: analyzeMoodScore_def)
  have b: "analyzeMoodScore openAI ollama t = Inr N"
    if "extractMetadata_mood t = Some (Integer N)" "1 \<le> N" "N \<le> 5" for N
    using that a by (auto simp: extractMetadata_mood_def split: option.splits)
  have c: "g \<noteq> [] \<and> list_all isDigit g \<and> extractMetadata_mood t = Some (parseInt g) \<and>
        parseInt g \<noteq> NaN \<and>
        (radix_value 10 g < 2 ^ 53 \<longrightarrow>
           extractMetadata_mood t = Some (Integer (radix_value 10 g)))"
    if "moodRegex_match t = Some g" for g
  proof -
    have g: "g \<noteq> []" "list_all isDigit g"
      using moodRegex_match_digits[OF that] by simp_all
    have m: "extractMetadata_mood t = Some (parseInt g)"
      using that by (simp add: extractMetadata_mood_def)
    show ?thesis
      using g m parseInt_digits[OF g] by simp
  qed
  have d: "analyzeMoodScore openAI ollama t = Inr 3"
    if none: "\<not> (\<exists>N. extractMetadata_mood t = Some (Integer N) \<and> 1 \<le> N \<and> N \<le> 5)"
      and svc: "configured_service openAI ollama = Some svc"
      and resp: "svc (moodPrompt t) = Inr response"
      and bad: "parseInt response = NaN \<or>
         (\<exists>n. parseInt response = Integer n \<and> (n < 1 \<or> 5 < n)) \<or>
         (\<exists>neg. parseInt response = Beyond neg)"
    for svc response
  proof -
    have conf: "openAI \<noteq> None \<or> ollama \<noteq> None"
      using svc by (auto simp: configured_service_def split: option.splits)
    have score: "score_or_default (parseInt response) = 3"
      using bad by (auto simp: score_or_default_def)
    have ai: "analyzeMoodWithAI openAI ollama t = Inr 3"
      using svc resp score
      by (auto simp: analyzeMoodWithAI_def configured_service_def split: option.splits)
    have "analyzeMoodScore openAI ollama t = analyzeMoodWithAI openAI ollama t"
      using none conf
      by (auto simp: analyzeMoodScore_def extractMetadata_mood_def
          split: option.splits number.splits)
    with ai show ?thesis by simp
  qed
  show ?thesis using a b c d by blast
qed

text \<open>
  The marker with the value 4 and a service that would answer 1; then a text with no
  marker and a service that answers \<open>good\<close>, one that answers 7, and one that answers
  9007199254740993, which no double is.
\<close>

theorem analyzeMoodScore_precedence_witness:
  "analyzeMoodScore None (Some (\<lambda>p. Inr [0x31])) [0x5FC3, 0x60C5, 0xFF1A, 0x34] = Inr 4 \<and>
   analyzeMoodScore None (Some (\<lambda>p. Inr [0x67, 0x6F, 0x6F, 0x64])) [0x61] = Inr 3 \<and>
   analyzeMoodScore (Some (\<lambda>p. Inr [0x37])) None [0x61] = Inr 3 \<and>
   analyzeMoodScore (Some (\<lambda>p. Inr
       [0x39, 0x30, 0x30, 0x37, 0x31, 0x39, 0x39, 0x32, 0x35, 0x34, 0x37, 0x34, 0x30, 0x39, 0x39, 0x33]))
     None [0x61] = Inr 3"
proof -
  let ?big = "[0x39, 0x30, 0x30, 0x37, 0x31, 0x39, 0x39, 0x32, 0x35, 0x34, 0x37, 0x34, 0x30, 0x39, 0x39, 0x33]
                :: jsstring"
  have m: "extractMetadata_mood [0x5FC3, 0x60C5, 0xFF1A, 0x34] = Some (Integer 4) \<and>
           (1::int) \<le> 4 \<and> (4::int) \<le> 5"
    by (simp add: extractMetadata_mood_def mood_at_def isWhiteSpace_def isDigit_def parseInt_def
        isRadixDigit_def digit_value_def radix_value_def)
  have first: "analyzeMoodScore None (Some (\<lambda>p. Inr [0x31])) [0x5FC3, 0x60C5, 0xFF1A, 0x34] = Inr 4"
    using m analyzeMoodScore_precedence[of "[0x5FC3, 0x60C5, 0xFF1A, 0x34]" None "Some (\<lambda>p. Inr [0x31])"]
    by blast
  have none: "\<not> (\<exists>N. extractMetadata_mood [0x61] = Some (Integer N) \<and> 1 \<le> N \<and> N \<le> 5)"
    by (simp add: extractMetadata_mood_def mood_at_def)
  have nan: "parseInt [0x67, 0x6F, 0x6F, 0x64] = NaN"
    by (simp add: parseInt_def isWhiteSpace_def isRadixDigit_def digit_value_def)
  have seven: "parseInt [0x37] = Integer 7 \<and> (5::int) < 7"
    by (simp add: parseInt_def isWhiteSpace_def isRadixDigit_def digit_value_def radix_value_def)
  have big: "parseInt ?big = Beyond False"
    by (simp add: parseInt_def isWhiteSpace_def isRadixDigit_def digit_value_def radix_value_def)
  have c1: "configured_service None (Some (\<lambda>p. Inr [0x67, 0x6F, 0x6F, 0x64]))
              = Some (\<lambda>p. Inr [0x67, 0x6F, 0x6F, 0x64]) \<and>
            (\<lambda>p. Inr [0x67, 0x6F, 0x6F, 0x64] :: error + jsstring) (moodPrompt [0x61])
              = Inr [0x67, 0x6F, 0x6F, 0x64]"
    by (simp add: configured_service_def)
  have c2: "configured_service (Some (\<lambda>p. Inr [0x37])) None = Some (\<lambda>p. Inr [0x37]) \<and>
            (\<lambda>p. Inr [0x37] :: error + jsstring) (moodPrompt [0x61]) = Inr [0x37]"
    by (simp add: configured_service_def)
  have c3: "configured_service (Some (\<lambda>p. Inr ?big)) None = Some (\<lambda>p. Inr ?big) \<and>
            (\<lambda>p. Inr ?big :: error + jsstring) (moodPrompt [0x61]) = Inr ?big"
    by (simp add: configured_service_def)
  have second: "analyzeMoodScore None (Some (\<lambda>p. Inr [0x67, 0x6F, 0x6F, 0x64])) [0x61] = Inr 3"
    using none nan c1
      analyzeMoodScore_precedence[of "[0x61]" None "Some (\<lambda>p. Inr [0x67, 0x6F, 0x6F, 0x64])"]
    by blast
  have third: "analyzeMoodScore (Some (\<lambda>p. Inr [0x37])) None [0x61] = Inr 3"
    using none seven c2
      analyzeMoodScore_precedence[of "[0x61]" "Some (\<lambda>p. Inr [0x37])" None]
    by blast
  have fourth: "analyzeMoodScore (Some (\<lambda>p. Inr ?big)) None [0x61] = Inr 3"
    using none big c3
      analyzeMoodScore_precedence[of "[0x61]" "Some (\<lambda>p. Inr ?big)" None]
    by blast
  show ?thesis using first second third fourth by blast
qed

section \<open>The date of a diary\<close>

lemma split_first_no_sep: "sep \<noteq> [] \<Longrightarrow> \<not> string_includes t sep \<Longrightarrow> split_first sep t = t"
  by (induction t) auto

text \<open>
  The order of the three sources: the file name up to its first full stop, then the
  first date in the content, then the current time.
\<close>

lemma extractDateInfo_precedence:
  "(moment (split_first [0x2E] fileName) dateFormat = Some d \<longrightarrow>
      extractDateInfo moment now dateFormat fileName body = d) \<and>
   (moment (split_first [0x2E] fileName) dateFormat = None \<and> dateRegex_match body = Some m \<and>
    moment m [0x59, 0x59, 0x59, 0x59, 0x2D, 0x4D, 0x4D, 0x2D, 0x44, 0x44] = Some d \<longrightarrow>
      extractDateInfo moment now dateFormat fileName body = d) \<and>
   (moment (split_first [0x2E] fileName) dateFormat = None \<and>
    (dateRegex_match body = None \<or>
     (\<exists>m. dateRegex_match body = Some m \<and>
        moment m [0x59, 0x59, 0x59, 0x59, 0x2D, 0x4D, 0x4D, 0x2D, 0x44, 0x44] = None)) \<longrightarrow>
      extractDateInfo moment now dateFormat fileName body = now)"
  by (auto simp: extractDateInfo_def)

lemma extractDateInfo_plain_name:
  "\<not> string_includes fileName [0x2E] \<Longrightarrow> moment fileName dateFormat = Some d \<Longrightarrow>
   extractDateInfo moment now dateFormat fileName body = d"
  by (simp add: extractDateInfo_def split_first_no_sep)

text \<open>
  C4 fails on the code for a file name with more than one full stop. The name
  \<open>2024.03.15.md\<close> is cut at its first full stop, not at its extension: the parser
  is asked about \<open>2024\<close> and never sees the month and the day. So, whatever the
  parser, the format and the content are, the names \<open>2024.03.15.md\<close> and
  \<open>2024.07.20.md\<close> get the same date, the one that the name \<open>2024\<close> gets.
\<close>

theorem extractDateInfo_first_dot:
  "split_first [0x2E] [0x32, 0x30, 0x32, 0x34, 0x2E, 0x30, 0x33, 0x2E, 0x31, 0x35, 0x2E, 0x6D, 0x64]
     = ([0x32, 0x30, 0x32, 0x34] :: jsstring) \<and>
   extractDateInfo moment now dateFormat
     [0x32, 0x30, 0x32, 0x34, 0x2E, 0x30, 0x33, 0x2E, 0x31, 0x35, 0x2E, 0x6D, 0x64] body
   = extractDateInfo moment now dateFormat
     [0x32, 0x30, 0x32, 0x34, 0x2E, 0x30, 0x37, 0x2E, 0x32, 0x30, 0x2E, 0x6D, 0x64] body \<and>
   extractDateInfo moment now dateFormat
     [0x32, 0x30, 0x32, 0x34, 0x2E, 0x30, 0x33, 0x2E, 0x31, 0x35, 0x2E, 0x6D, 0x64] body
   = extractDateInfo moment now dateFormat [0x32, 0x30, 0x32, 0x34] body"
  by (simp add: extractDateInfo_def)

end
